theory Spec2Isabelle
  imports Complex_Main "HOL-Library.Sublist"
begin

section \<open>Configuration values and their textual form\<close>

text \<open>
  The sweep dimensions come from a YAML document, so a numeric entry is either a Python
  \<open>int\<close> or a Python \<open>float\<close>. A float is represented by the decimal numeral that
  Python prints for it in positional notation: a sign, the integer part and the digits
  after the point (none for a whole number such as \<open>0.0\<close>, no trailing zero otherwise).
  Floats that Python prints with an exponent, infinities and NaN are not represented.
\<close>

datatype pynum = PyInt int | PyFloat bool nat "nat list"

definition digit_char :: "nat \<Rightarrow> char" where
  "digit_char d = ''0123456789'' ! (d mod 10)"

fun str_nat :: "nat \<Rightarrow> string" where
  "str_nat n = (if n < 10 then [digit_char n] else str_nat (n div 10) @ [digit_char (n mod 10)])"

declare str_nat.simps [simp del]

definition str_int :: "int \<Rightarrow> string" where
  "str_int i = (if i < 0 then ''-'' @ str_nat (nat (- i)) else str_nat (nat i))"

text \<open>\<open>str(x)\<close>, which is also what an f-string placeholder \<open>{x}\<close> produces.\<close>

fun py_str :: "pynum \<Rightarrow> string" where
  "py_str (PyInt i) = str_int i"
| "py_str (PyFloat neg ip ds) =
     (if neg then ''-'' else '''') @ str_nat ip @ ''.'' @
     (if ds = [] then ''0'' else map digit_char ds)"


text \<open>\<open>s.replace(old, new)\<close> for one-character \<open>old\<close> and \<open>new\<close>.\<close>

definition str_replace :: "char \<Rightarrow> char \<Rightarrow> string \<Rightarrow> string" where
  "str_replace old new s = map (\<lambda>c. if c = old then new else c) s"

section \<open>Parameter-space expansion\<close>

text \<open>\<open>list(itertools.product(xs, ys, zs))\<close>: the rightmost dimension advances fastest.\<close>

definition product3 :: "'a list \<Rightarrow> 'b list \<Rightarrow> 'c list \<Rightarrow> ('a \<times> 'b \<times> 'c) list" where
  "product3 xs ys zs = concat (map (\<lambda>x. concat (map (\<lambda>y. map (\<lambda>z. (x, y, z)) zs) ys)) xs)"

section \<open>Result keys\<close>

type_synonym combo = "pynum \<times> pynum \<times> pynum"

text \<open>\<open>case_name\<close> and \<open>output_filename\<close> of \<open>run_femm_simulations\<close>.\<close>

fun femm_case_name :: "combo \<Rightarrow> string" where
  "femm_case_name (s, d, t) =
     ''static_'' @ py_str s @ ''_dyn_'' @ py_str d @ ''_tilt_'' @ py_str t"

definition output_filename :: "string \<Rightarrow> combo \<Rightarrow> string" where
  "output_filename motor_id combo =
     motor_id @ ''_'' @ str_replace CHR ''.'' CHR ''p'' (femm_case_name combo) @ ''.csv''"

text \<open>\<open>nominal_case_name\<close> and \<open>case_name\<close> of \<open>run_modelica_simulations\<close>.\<close>

definition nominal_case_name :: "string \<Rightarrow> string" where
  "nominal_case_name motor_id = motor_id @ ''_static_0p0_dyn_0p0_tilt_0p0.csv''"

definition system_case_name :: "string \<Rightarrow> string \<Rightarrow> pynum \<Rightarrow> pynum \<Rightarrow> string" where
  "system_case_name motor_id controller freq_khz rpm =
     motor_id @ ''_'' @ controller @ ''_'' @ py_str freq_khz @ ''kHz_'' @ py_str rpm @ ''rpm''"

section \<open>Case identities\<close>




section \<open>Floating-point arithmetic\<close>

text \<open>
  A Python \<open>float\<close> is an IEEE-754 double. Its value is kept as a rational number, and
  every operation rounds its exact result to the nearest number with a 53-bit significand,
  ties to even. The exponent range is not bounded: overflow and subnormal numbers are not
  modelled.
\<close>

text \<open>The number of binary digits of a positive integer.\<close>

function bitlen :: "int \<Rightarrow> nat" where
  "bitlen n = (if n \<le> 0 then 0 else Suc (bitlen (n div 2)))"
  by pat_completeness auto
termination
  by (relation "measure nat") auto

declare bitlen.simps [simp del]

definition pow2 :: "int \<Rightarrow> rat" where
  "pow2 k = (if 0 \<le> k then 2 ^ nat k else 1 / 2 ^ nat (- k))"

text \<open>The exponent \<open>e\<close> with \<open>2 ^ e \<le> \<bar>x\<bar> < 2 ^ (e + 1)\<close>, for \<open>x \<noteq> 0\<close>.\<close>

definition float_exponent :: "rat \<Rightarrow> int" where
  "float_exponent x =
     (if 1 \<le> \<bar>x\<bar> then int (bitlen \<lfloor>\<bar>x\<bar>\<rfloor>) - 1
      else - int (bitlen (\<lceil>1 / \<bar>x\<bar>\<rceil> - 1)))"

definition round_half_even :: "rat \<Rightarrow> int" where
  "round_half_even x =
     (let f = \<lfloor>x\<rfloor>; d = x - of_int f
      in if d < 1 / 2 then f else if 1 / 2 < d then f + 1 else if even f then f else f + 1)"

definition fl :: "rat \<Rightarrow> rat" where
  "fl x = (if x = 0 then 0
           else let s = pow2 (float_exponent x - 52) in of_int (round_half_even (x / s)) * s)"

text \<open>\<open>a / b\<close> on floats, for \<open>b \<noteq> 0\<close>; the caller raises \<open>ZeroDivisionError\<close> otherwise.\<close>

definition fdiv :: "rat \<Rightarrow> rat \<Rightarrow> rat" where
  "fdiv a b = fl (a / b)"

fun frac_val :: "nat list \<Rightarrow> rat" where
  "frac_val [] = 0"
| "frac_val (d # ds) = (of_nat d + frac_val ds) / 10"

text \<open>The value of a configuration entry, and \<open>float(x)\<close>.\<close>

fun num_val :: "pynum \<Rightarrow> rat" where
  "num_val (PyInt i) = of_int i"
| "num_val (PyFloat neg ip ds) = fl ((if neg then - 1 else 1) * (of_nat ip + frac_val ds))"

fun float_val :: "pynum \<Rightarrow> rat" where
  "float_val (PyInt i) = fl (of_int i)"
| "float_val (PyFloat neg ip ds) = num_val (PyFloat neg ip ds)"

datatype py_exn = ZeroDivisionError | FemmError

text \<open>
  \<open>np.arange(0, stop, step)\<close> for floats: the length is the ceiling of the rounded
  quotient \<open>(stop - 0) / step\<close>, a division that raises for \<open>step = 0\<close>; element \<open>i\<close> is
  \<open>0 + i * step\<close>.
\<close>

definition np_arange0 :: "rat \<Rightarrow> rat \<Rightarrow> py_exn + rat list" where
  "np_arange0 stop step =
     (if step = 0 then Inl ZeroDivisionError
      else Inr (map (\<lambda>i. fl (of_nat i * step)) [0 ..< nat \<lceil>fdiv stop step\<rceil>]))"

section \<open>The finite-element session\<close>

text \<open>
  A path is kept as the pair of a directory and a file name, which is what
  \<open>os.path.join(directory, name)\<close> is given.
\<close>

type_synonym path = "string \<times> string"

datatype femm_call =
    OpenFemm
  | OpenDocument path
  | MiSelectGroup nat
  | MiMoveTranslate rat rat
  | MiRotate rat rat rat
  | MiAnalyze nat
  | MiLoadSolution
  | MoSelectBlock nat
  | MoBlockIntegral nat
  | CloseFemm

text \<open>
  The external tool: given the calls it has completed so far and the next call, it either
  raises (\<open>None\<close>) or returns a number (the torque for the block integral).
\<close>

type_synonym femm_engine = "femm_call list \<Rightarrow> femm_call \<Rightarrow> rat option"

text \<open>A straight-line run of calls; stops at the first that raises. Returns the completed calls.\<close>

fun femm_seq :: "femm_engine \<Rightarrow> femm_call list \<Rightarrow> femm_call list \<Rightarrow> bool \<times> femm_call list" where
  "femm_seq eng h [] = (True, [])"
| "femm_seq eng h (c # cs) =
     (case eng h c of
        None \<Rightarrow> (False, [])
      | Some v \<Rightarrow> (case femm_seq eng (h @ [c]) cs of (ok, done) \<Rightarrow> (ok, c # done)))"

record geom_case =
  static_ecc_mm :: pynum
  dynamic_ecc_mm :: pynum
  tilt_deg :: pynum

record motor_params =
  poles :: int

text \<open>The loop body of the angle sweep, before and after the torque is read.\<close>

definition rotate_calls :: "rat \<Rightarrow> rat \<Rightarrow> femm_call list" where
  "rotate_calls dyn_ecc_x mech_deg =
     [MiSelectGroup 1, MiRotate 0 0 mech_deg] @
     (if dyn_ecc_x \<noteq> 0 then [MiMoveTranslate dyn_ecc_x 0] else []) @
     [MiAnalyze 1, MiLoadSolution, MoSelectBlock 1]"

definition undo_calls :: "rat \<Rightarrow> rat \<Rightarrow> femm_call list" where
  "undo_calls dyn_ecc_x mech_deg =
     (if dyn_ecc_x \<noteq> 0 then [MiMoveTranslate (- dyn_ecc_x) 0] else []) @
     [MiRotate 0 0 (- mech_deg)]"

definition sweep_step :: "femm_engine \<Rightarrow> femm_call list \<Rightarrow> rat \<Rightarrow> rat \<Rightarrow> rat option \<times> femm_call list" where
  "sweep_step eng h dyn_ecc_x mech_deg =
     (case femm_seq eng h (rotate_calls dyn_ecc_x mech_deg) of
        (False, d1) \<Rightarrow> (None, d1)
      | (True, d1) \<Rightarrow>
          (case eng (h @ d1) (MoBlockIntegral 22) of
             None \<Rightarrow> (None, d1)
           | Some torque \<Rightarrow>
               (case femm_seq eng (h @ d1 @ [MoBlockIntegral 22]) (undo_calls dyn_ecc_x mech_deg) of
                  (ok, d2) \<Rightarrow> (if ok then Some torque else None, d1 @ MoBlockIntegral 22 # d2))))"

fun sweep :: "femm_engine \<Rightarrow> femm_call list \<Rightarrow> rat \<Rightarrow> rat list \<Rightarrow> (rat \<times> rat) list option \<times> femm_call list" where
  "sweep eng h dyn_ecc_x [] = (Some [], [])"
| "sweep eng h dyn_ecc_x (mech_deg # rest) =
     (case sweep_step eng h dyn_ecc_x mech_deg of
        (None, d) \<Rightarrow> (None, d)
      | (Some torque, d) \<Rightarrow>
          (case sweep eng (h @ d) dyn_ecc_x rest of
             (None, d') \<Rightarrow> (None, d @ d')
           | (Some rows, d') \<Rightarrow> (Some ((mech_deg, torque) # rows), d @ d')))"

definition baseline_calls :: "path \<Rightarrow> rat \<Rightarrow> femm_call list" where
  "baseline_calls dxf_path static_ecc_x =
     [OpenFemm, OpenDocument dxf_path, MiSelectGroup 1, MiMoveTranslate static_ecc_x 0]"

text \<open>
  The \<open>try\<close> block of \<open>_run_single_femm_case\<close>: the rows of the data frame or the exception,
  with the calls the tool completed. The tilt branch of the source is a \<open>pass\<close>.
\<close>

definition femm_try ::
  "femm_engine \<Rightarrow> femm_call list \<Rightarrow> path \<Rightarrow> motor_params \<Rightarrow> geom_case \<Rightarrow> rat
     \<Rightarrow> (py_exn + (rat \<times> rat) list) \<times> femm_call list" where
  "femm_try eng h dxf_path mp c step_deg =
     (case femm_seq eng h (baseline_calls dxf_path (num_val (static_ecc_mm c))) of
        (False, d0) \<Rightarrow> (Inl FemmError, d0)
      | (True, d0) \<Rightarrow>
          (let pole_pairs = fl (of_int (poles mp) / 2)
           in if pole_pairs = 0 then (Inl ZeroDivisionError, d0)
              else
                (case np_arange0 (fdiv 360 pole_pairs) step_deg of
                   Inl e \<Rightarrow> (Inl e, d0)
                 | Inr angles \<Rightarrow>
                     (case sweep eng (h @ d0) (num_val (dynamic_ecc_mm c)) angles of
                        (None, d1) \<Rightarrow> (Inl FemmError, d0 @ d1)
                      | (Some rows, d1) \<Rightarrow>
                          (case eng (h @ d0 @ d1) CloseFemm of
                             None \<Rightarrow> (Inl FemmError, d0 @ d1)
                           | Some v \<Rightarrow> (Inr rows, d0 @ d1 @ [CloseFemm]))))))"

datatype event =
    ProcessingMotor string
  | DxfNotFound path
  | RunningFemmCase nat nat string
  | FemmFailed py_exn
  | SavedResults path
  | TemplateNotFound path
  | NominalNotFound path
  | RunningCase string
  | SimulationSuccessful string
  | OmcNotFound
  | SimulationFailed string string

text \<open>
  \<open>_run_single_femm_case\<close>: the rows of the returned data frame (none on failure), the calls
  completed including the handler's \<open>closefemm\<close>, and what was printed. The handler's
  \<open>closefemm\<close> is outside the \<open>try\<close> block and is taken to succeed.
\<close>

definition run_single_femm_case ::
  "femm_engine \<Rightarrow> femm_call list \<Rightarrow> path \<Rightarrow> motor_params \<Rightarrow> geom_case \<Rightarrow> rat
     \<Rightarrow> (rat \<times> rat) list \<times> femm_call list \<times> event list" where
  "run_single_femm_case eng h dxf_path mp c step_deg =
     (case femm_try eng h dxf_path mp c step_deg of
        (Inr rows, d) \<Rightarrow> (rows, d, [])
      | (Inl e, d) \<Rightarrow> ([], d @ [CloseFemm], [FemmFailed e]))"

text \<open>The calls of one completed angle step, and of a completed sweep.\<close>

definition step_calls :: "rat \<Rightarrow> rat \<Rightarrow> femm_call list" where
  "step_calls dyn_ecc_x mech_deg =
     rotate_calls dyn_ecc_x mech_deg @ MoBlockIntegral 22 # undo_calls dyn_ecc_x mech_deg"

definition sweep_calls :: "rat \<Rightarrow> rat list \<Rightarrow> femm_call list" where
  "sweep_calls dyn_ecc_x angles = concat (map (step_calls dyn_ecc_x) angles)"

text \<open>A tool that never raises and reports the torque 1 for every position.\<close>

definition ideal_engine :: femm_engine where
  "ideal_engine h c = Some 1"

text \<open>The translation deltas of the completed calls, in order.\<close>

fun translate_deltas :: "femm_call list \<Rightarrow> (rat \<times> rat) list" where
  "translate_deltas [] = []"
| "translate_deltas (MiMoveTranslate dx dy # cs) = (dx, dy) # translate_deltas cs"
| "translate_deltas (c # cs) = translate_deltas cs"


text \<open>The sums of the translation and rotation deltas of the completed calls.\<close>

fun net_translation :: "femm_call list \<Rightarrow> rat \<times> rat" where
  "net_translation [] = (0, 0)"
| "net_translation (MiMoveTranslate dx dy # cs) =
     (case net_translation cs of (x, y) \<Rightarrow> (dx + x, dy + y))"
| "net_translation (c # cs) = net_translation cs"

fun net_rotation :: "femm_call list \<Rightarrow> rat" where
  "net_rotation [] = 0"
| "net_rotation (MiRotate cx cy a # cs) = a + net_rotation cs"
| "net_rotation (c # cs) = net_rotation cs"

section \<open>The batch runners\<close>

datatype content = Asset | TorqueTable "(rat \<times> rat) list" | TextFile | SolverOutput

text \<open>The world the runners act on: the files, the console and the calls the tool completed.\<close>

record world =
  files :: "path \<Rightarrow> content option"
  console :: "event list"
  femm_hist :: "femm_call list"

record geometry_errors =
  err_static_ecc_mm :: "pynum list"
  err_dynamic_ecc_mm :: "pynum list"
  err_tilt_deg :: "pynum list"

text \<open>The configuration dictionary; \<open>motors\<close> keeps the order of the document.\<close>

record config =
  cad :: string
  results :: string
  modelica_model_template :: path
  motors :: "(string \<times> motor_params) list"
  geometry_errors :: geometry_errors
  sweep_step_elec_deg :: pynum
  controllers :: "string list"
  hil_freq_kHz :: "pynum list"
  speed_rpm :: "pynum list"

definition emit :: "event \<Rightarrow> world \<Rightarrow> world" where
  "emit e w = w\<lparr>console := console w @ [e]\<rparr>"

definition write_file :: "path \<Rightarrow> content \<Rightarrow> world \<Rightarrow> world" where
  "write_file p c w = w\<lparr>files := (files w)(p \<mapsto> c)\<rparr>"

definition remove_file :: "path \<Rightarrow> world \<Rightarrow> world" where
  "remove_file p w = w\<lparr>files := (files w)(p := None)\<rparr>"

text \<open>
  A \<open>for\<close> loop whose body may raise, fall through to the next iteration (also by
  \<open>continue\<close>) or \<open>return\<close> from the enclosing function.
\<close>

datatype flow = Next world | Return world

fun for_each :: "('a \<Rightarrow> world \<Rightarrow> py_exn + flow) \<Rightarrow> 'a list \<Rightarrow> world \<Rightarrow> py_exn + flow" where
  "for_each body [] w = Inr (Next w)"
| "for_each body (x # xs) w =
     (case body x w of
        Inl e \<Rightarrow> Inl e
      | Inr (Return w') \<Rightarrow> Inr (Return w')
      | Inr (Next w') \<Rightarrow> for_each body xs w')"

definition error_combinations :: "config \<Rightarrow> combo list" where
  "error_combinations cfg =
     product3 (err_static_ecc_mm (geometry_errors cfg))
              (err_dynamic_ecc_mm (geometry_errors cfg))
              (err_tilt_deg (geometry_errors cfg))"

definition dxf_path :: "config \<Rightarrow> string \<Rightarrow> path" where
  "dxf_path cfg motor_id = (cad cfg, motor_id @ ''.dxf'')"

definition output_path :: "config \<Rightarrow> string \<Rightarrow> combo \<Rightarrow> path" where
  "output_path cfg motor_id combo = (results cfg, output_filename motor_id combo)"

fun case_of :: "combo \<Rightarrow> geom_case" where
  "case_of (s, d, t) = \<lparr>static_ecc_mm = s, dynamic_ecc_mm = d, tilt_deg = t\<rparr>"

text \<open>
  \<open>step_mech_deg\<close> of \<open>run_femm_simulations\<close>, for a pole-pair count that is not zero.
\<close>

definition step_mech_deg :: "config \<Rightarrow> motor_params \<Rightarrow> rat" where
  "step_mech_deg cfg mp = fdiv (float_val (sweep_step_elec_deg cfg)) (fl (of_int (poles mp) / 2))"

text \<open>One iteration of the inner loop of \<open>run_femm_simulations\<close>.\<close>

definition femm_case ::
  "config \<Rightarrow> femm_engine \<Rightarrow> string \<Rightarrow> motor_params \<Rightarrow> nat \<Rightarrow> nat \<times> combo \<Rightarrow> world \<Rightarrow> py_exn + flow" where
  "femm_case cfg eng motor_id mp n_cases ic w =
     (case ic of (i, combo) \<Rightarrow>
        (let w1 = emit (RunningFemmCase (i + 1) n_cases (femm_case_name combo)) w
         in if fl (of_int (poles mp) / 2) = 0 then Inl ZeroDivisionError
            else
              (case run_single_femm_case eng (femm_hist w1) (dxf_path cfg motor_id) mp
                      (case_of combo) (step_mech_deg cfg mp) of
                 (results_df, calls, msgs) \<Rightarrow>
                   (let w2 = w1\<lparr>console := console w1 @ msgs, femm_hist := femm_hist w1 @ calls\<rparr>
                    in if results_df \<noteq> []
                       then Inr (Next (emit (SavedResults (output_path cfg motor_id combo))
                                   (write_file (output_path cfg motor_id combo) (TorqueTable results_df) w2)))
                       else Inr (Next w2)))))"

text \<open>One iteration of the outer loop of \<open>run_femm_simulations\<close>.\<close>

definition femm_motor :: "config \<Rightarrow> femm_engine \<Rightarrow> string \<times> motor_params \<Rightarrow> world \<Rightarrow> py_exn + flow" where
  "femm_motor cfg eng m w =
     (case m of (motor_id, mp) \<Rightarrow>
        (let w1 = emit (ProcessingMotor motor_id) w
         in if files w1 (dxf_path cfg motor_id) = None
            then Inr (Next (emit (DxfNotFound (dxf_path cfg motor_id)) w1))
            else for_each (femm_case cfg eng motor_id mp (length (error_combinations cfg)))
                   (enumerate 0 (error_combinations cfg)) w1))"

definition run_femm_simulations :: "config \<Rightarrow> femm_engine \<Rightarrow> world \<Rightarrow> py_exn + flow" where
  "run_femm_simulations cfg eng w = for_each (femm_motor cfg eng) (motors cfg) w"

text \<open>
  The outcome of \<open>subprocess.run\<close> on the solver: it returns, raises
  \<open>CalledProcessError\<close> carrying the captured error stream, or raises
  \<open>FileNotFoundError\<close>. The solver is told what was printed so far and the case name.
\<close>

datatype omc_outcome = Success | NonZeroExit string | ExecutableMissing

type_synonym omc_solver = "event list \<Rightarrow> string \<Rightarrow> omc_outcome"

definition nominal_path :: "config \<Rightarrow> string \<Rightarrow> path" where
  "nominal_path cfg motor_id = (results cfg, nominal_case_name motor_id)"

definition temp_model_path :: "config \<Rightarrow> string \<Rightarrow> path" where
  "temp_model_path cfg case_name = (results cfg, ''Temp_'' @ case_name @ ''.mo'')"

definition temp_script_path :: "config \<Rightarrow> path" where
  "temp_script_path cfg = (results cfg, ''run_sim.mos'')"

definition package_path :: path where
  "package_path = ([], ''package.mo'')"

text \<open>The file the solver writes for the prefix it is given, when it succeeds.\<close>

definition system_result_path :: "config \<Rightarrow> string \<Rightarrow> path" where
  "system_result_path cfg case_name = (results cfg, case_name @ ''_res.csv'')"

text \<open>The \<open>finally\<close> block: both temporary files are removed.\<close>

definition cleanup :: "config \<Rightarrow> string \<Rightarrow> world \<Rightarrow> world" where
  "cleanup cfg case_name w = remove_file (temp_script_path cfg) (remove_file (temp_model_path cfg case_name) w)"

text \<open>
  The body of the innermost loop of \<open>run_modelica_simulations\<close>. The division for
  \<open>hil_ts\<close> is outside the \<open>try\<close> block.
\<close>

definition system_case ::
  "config \<Rightarrow> omc_solver \<Rightarrow> string \<Rightarrow> string \<Rightarrow> pynum \<Rightarrow> pynum \<Rightarrow> world \<Rightarrow> py_exn + flow" where
  "system_case cfg solver motor_id controller freq_khz rpm w =
     (let case_name = system_case_name motor_id controller freq_khz rpm;
          w1 = emit (RunningCase case_name) w
      in if fl (float_val freq_khz * 1000) = 0 then Inl ZeroDivisionError
         else
           (let w2 = write_file (temp_script_path cfg) TextFile
                       (write_file (temp_model_path cfg case_name) TextFile w1);
                w3 = (if files w2 package_path = None then write_file package_path TextFile w2 else w2)
            in case solver (console w3) case_name of
                 Success \<Rightarrow>
                   Inr (Next (cleanup cfg case_name
                     (emit (SimulationSuccessful case_name)
                        (write_file (system_result_path cfg case_name) SolverOutput w3))))
               | ExecutableMissing \<Rightarrow>
                   Inr (Return (cleanup cfg case_name (emit OmcNotFound w3)))
               | NonZeroExit err \<Rightarrow>
                   Inr (Next (cleanup cfg case_name (emit (SimulationFailed case_name err) w3)))))"

definition system_sweep :: "config \<Rightarrow> omc_solver \<Rightarrow> string \<Rightarrow> world \<Rightarrow> py_exn + flow" where
  "system_sweep cfg solver motor_id w =
     for_each (\<lambda>controller.
       for_each (\<lambda>freq_khz.
         for_each (\<lambda>rpm. system_case cfg solver motor_id controller freq_khz rpm)
           (speed_rpm cfg))
         (hil_freq_kHz cfg))
       (controllers cfg) w"

definition modelica_motor :: "config \<Rightarrow> omc_solver \<Rightarrow> string \<times> motor_params \<Rightarrow> world \<Rightarrow> py_exn + flow" where
  "modelica_motor cfg solver m w =
     (case m of (motor_id, mp) \<Rightarrow>
        (let w1 = emit (ProcessingMotor motor_id) w
         in if files w1 (nominal_path cfg motor_id) = None
            then Inr (Next (emit (NominalNotFound (nominal_path cfg motor_id)) w1))
            else system_sweep cfg solver motor_id w1))"

definition run_modelica_simulations :: "config \<Rightarrow> omc_solver \<Rightarrow> world \<Rightarrow> py_exn + flow" where
  "run_modelica_simulations cfg solver w =
     (if files w (modelica_model_template cfg) = None
      then Inr (Return (emit (TemplateNotFound (modelica_model_template cfg)) w))
      else for_each (modelica_motor cfg solver) (motors cfg) w)"

text \<open>The case names announced on the console, in order.\<close>

fun attempted :: "event list \<Rightarrow> string list" where
  "attempted [] = []"
| "attempted (RunningCase n # es) = n # attempted es"
| "attempted (e # es) = attempted es"

subsection \<open>A small configuration\<close>

text \<open>
  Two motors with two poles each, a sweep step of 90 electrical degrees, two static
  eccentricities, two controllers, two switching frequencies and one speed. Only the
  first motor has a geometry file.
\<close>

definition example_config :: config where
  "example_config =
     \<lparr>cad = ''cad'', results = ''results'',
      modelica_model_template = (''models'', ''template.mo''),
      motors = [(''A'', \<lparr>poles = 2\<rparr>), (''B'', \<lparr>poles = 2\<rparr>)],
      geometry_errors =
        \<lparr>err_static_ecc_mm = [PyFloat False 0 [], PyFloat False 0 [1]],
         err_dynamic_ecc_mm = [PyFloat False 0 []],
         err_tilt_deg = [PyFloat False 0 []]\<rparr>,
      sweep_step_elec_deg = PyInt 90,
      controllers = [''PI'', ''FOC''],
      hil_freq_kHz = [PyInt 10, PyInt 20],
      speed_rpm = [PyInt 1000]\<rparr>"

definition example_world :: world where
  "example_world =
     \<lparr>files = [(''cad'', ''A.dxf'') \<mapsto> Asset, (''models'', ''template.mo'') \<mapsto> Asset],
      console = [], femm_hist = []\<rparr>"

text \<open>The same configuration with the zero entries written as integers.\<close>

definition integer_config :: config where
  "integer_config =
     example_config\<lparr>geometry_errors :=
        \<lparr>err_static_ecc_mm = [PyInt 0], err_dynamic_ecc_mm = [PyInt 0], err_tilt_deg = [PyInt 0]\<rparr>\<rparr>"

text \<open>Solvers that always succeed, always exit nonzero, and cannot be started.\<close>

definition good_solver :: omc_solver where
  "good_solver printed case_name = Success"



text \<open>The world a flow ends in.\<close>

fun world_of :: "flow \<Rightarrow> world" where
  "world_of (Next w) = w"
| "world_of (Return w) = w"

text \<open>The world after stage 1 has run on the small configuration with a tool that never raises.\<close>

definition after_stage1 :: "config \<Rightarrow> world" where
  "after_stage1 cfg =
     (case run_femm_simulations cfg ideal_engine example_world of
        Inr r \<Rightarrow> world_of r
      | Inl e \<Rightarrow> example_world)"

section \<open>Properties of the expansion\<close>

lemma product3_product: "product3 xs ys zs = List.product xs (List.product ys zs)"
  by (simp add: product3_def product_concat_map map_concat comp_def)

lemma product3_index:
  assumes "i < length xs" "j < length ys" "k < length zs"
  shows "product3 xs ys zs ! (i * (length ys * length zs) + j * length zs + k) = (xs ! i, ys ! j, zs ! k)"
proof -
  let ?m = "length ys * length zs"
  have k: "j * length zs + k < ?m"
  proof -
    have "j * length zs + k < j * length zs + length zs" using assms by simp
    also have "\<dots> = Suc j * length zs" by simp
    also have "\<dots> \<le> ?m" using assms by (intro mult_le_mono1) simp
    finally show ?thesis .
  qed
  have n: "i * ?m + (j * length zs + k) < length xs * ?m"
  proof -
    have "i * ?m + (j * length zs + k) < i * ?m + ?m" using k by simp
    also have "\<dots> = Suc i * ?m" by simp
    also have "\<dots> \<le> length xs * ?m" using assms by (intro mult_le_mono1) simp
    finally show ?thesis .
  qed
  have mpos: "0 < ?m" using k by (cases "?m") simp_all
  have zpos: "0 < length zs" using assms by (cases zs) simp_all
  have d1: "(i * ?m + (j * length zs + k)) div ?m = i"
    using k mpos by (metis div_mult_self3 div_less add.right_neutral less_numeral_extra(3))
  have m1: "(i * ?m + (j * length zs + k)) mod ?m = j * length zs + k"
    using k by (metis mod_mult_self3 mod_less)
  have d2: "(j * length zs + k) div length zs = j"
    using assms zpos by (metis div_mult_self3 div_less add.right_neutral less_numeral_extra(3))
  have m2: "(j * length zs + k) mod length zs = k"
    using assms by (metis mod_mult_self3 mod_less)
  have "product3 xs ys zs ! (i * ?m + (j * length zs + k)) = (xs ! i, ys ! j, zs ! k)"
    using n k
    by (simp only: product3_product product_nth length_product d1 m1 d2 m2)
  then show ?thesis by (simp add: add.assoc)
qed

text \<open>
  Claim C9. For dimensions of sizes \<open>a\<close>, \<open>b\<close> and \<open>c\<close> the expansion has \<open>a * b * c\<close>
  tuples; the tuple of the \<open>i\<close>-th, \<open>j\<close>-th and \<open>k\<close>-th values stands at the fixed
  position \<open>i * (b * c) + j * c + k\<close>, so the order is a function of the dimensions alone;
  the tuples are exactly the combinations, and each occurs once when the dimensions have no
  repeated value.
\<close>

theorem product3_complete:
  "length (product3 xs ys zs) = length xs * length ys * length zs
   \<and> (\<forall>i < length xs. \<forall>j < length ys. \<forall>k < length zs.
         product3 xs ys zs ! (i * (length ys * length zs) + j * length zs + k) = (xs ! i, ys ! j, zs ! k))
   \<and> set (product3 xs ys zs) = set xs \<times> set ys \<times> set zs
   \<and> (distinct xs \<and> distinct ys \<and> distinct zs \<longrightarrow> distinct (product3 xs ys zs))"
  by (simp add: product3_index) (simp add: product3_product distinct_product)

theorem product3_complete_witness:
  "length (product3 [PyInt 0, PyInt 1] [PyInt 0] [PyInt 0, PyInt 2, PyInt 3]) = 6
   \<and> product3 [PyInt 0, PyInt 1] [PyInt 0] [PyInt 0, PyInt 2, PyInt 3] ! 5 = (PyInt 1, PyInt 0, PyInt 3)
   \<and> distinct (product3 [PyInt 0, PyInt 1] [PyInt 0] [PyInt 0, PyInt 2, PyInt 3])"
proof -
  let ?xs = "[PyInt 0, PyInt 1]" and ?ys = "[PyInt 0]" and ?zs = "[PyInt 0, PyInt 2, PyInt 3]"
  note t = product3_complete [of ?xs ?ys ?zs]
  have d: "distinct ?xs \<and> distinct ?ys \<and> distinct ?zs" by simp
  have a: "length (product3 ?xs ?ys ?zs) = 6" using t by simp
  have "product3 ?xs ?ys ?zs ! (1 * (length ?ys * length ?zs) + 0 * length ?zs + 2) = (?xs ! 1, ?ys ! 0, ?zs ! 2)"
    using t [THEN conjunct2, THEN conjunct1, rule_format, of 1 0 2] by simp
  then have b: "product3 ?xs ?ys ?zs ! 5 = (PyInt 1, PyInt 0, PyInt 3)"
    by (simp add: eval_nat_numeral)
  have c: "distinct (product3 ?xs ?ys ?zs)" using t d by blast
  show ?thesis using a b c by blast
qed

section \<open>Properties of a single case\<close>

lemma femm_seq_done:
  "femm_seq eng h cs = (ok, d) \<Longrightarrow> prefix d cs \<and> (ok \<longrightarrow> d = cs)"
proof (induction cs arbitrary: h ok d)
  case Nil
  then show ?case by simp
next
  case (Cons c cs)
  show ?case
  proof (cases "eng h c")
    case None
    with Cons.prems show ?thesis by simp
  next
    case (Some v)
    obtain ok' d' where r: "femm_seq eng (h @ [c]) cs = (ok', d')" by (cases "femm_seq eng (h @ [c]) cs")
    with Some Cons.prems have "ok = ok'" "d = c # d'" by simp_all
    with Cons.IH [OF r] show ?thesis by simp
  qed
qed

lemma sweep_step_done:
  assumes "sweep_step eng h dyn a = (r, d)"
  shows "prefix d (step_calls dyn a) \<and> (r \<noteq> None \<longrightarrow> d = step_calls dyn a)"
proof -
  obtain ok1 d1 where s1: "femm_seq eng h (rotate_calls dyn a) = (ok1, d1)"
    by (cases "femm_seq eng h (rotate_calls dyn a)")
  note p1 = femm_seq_done [OF s1]
  show ?thesis
  proof (cases ok1)
    case False
    with assms s1 p1 show ?thesis by (auto simp: sweep_step_def step_calls_def prefix_def)
  next
    case True
    with p1 have d1: "d1 = rotate_calls dyn a" by simp
    show ?thesis
    proof (cases "eng (h @ d1) (MoBlockIntegral 22)")
      case None
      with assms s1 True d1 show ?thesis by (auto simp: sweep_step_def step_calls_def prefix_def)
    next
      case (Some t)
      obtain ok2 d2 where s2: "femm_seq eng (h @ d1 @ [MoBlockIntegral 22]) (undo_calls dyn a) = (ok2, d2)"
        by (cases "femm_seq eng (h @ d1 @ [MoBlockIntegral 22]) (undo_calls dyn a)")
      note p2 = femm_seq_done [OF s2]
      from assms s1 True Some s2 have "d = d1 @ MoBlockIntegral 22 # d2" "r = (if ok2 then Some t else None)"
        by (auto simp: sweep_step_def)
      with p2 d1 show ?thesis by (auto simp: step_calls_def split: if_splits)
    qed
  qed
qed

lemma sweep_done:
  "sweep eng h dyn angles = (r, d) \<Longrightarrow>
     prefix d (sweep_calls dyn angles) \<and>
     (\<forall>rows. r = Some rows \<longrightarrow> d = sweep_calls dyn angles \<and> map fst rows = angles)"
proof (induction angles arbitrary: h r d)
  case Nil
  then show ?case by (auto simp: sweep_calls_def)
next
  case (Cons a angles)
  obtain r1 d1 where s1: "sweep_step eng h dyn a = (r1, d1)" by (cases "sweep_step eng h dyn a")
  note p1 = sweep_step_done [OF s1]
  show ?case
  proof (cases r1)
    case None
    with Cons.prems s1 have "r = None" "d = d1" by simp_all
    with p1 show ?thesis by (auto simp: sweep_calls_def prefix_def)
  next
    case (Some t)
    with p1 have d1: "d1 = step_calls dyn a" by simp
    obtain r2 d2 where s2: "sweep eng (h @ d1) dyn angles = (r2, d2)" by (cases "sweep eng (h @ d1) dyn angles")
    note p2 = Cons.IH [OF s2]
    from Cons.prems s1 Some s2 have d: "d = d1 @ d2" by (auto split: option.splits)
    from Cons.prems s1 Some s2 have r: "r = (case r2 of None \<Rightarrow> None | Some rows \<Rightarrow> Some ((a, t) # rows))"
      by (auto split: option.splits)
    from p2 d d1 r show ?thesis by (auto simp: sweep_calls_def split: option.splits)
  qed
qed

lemma femm_try_done:
  assumes "femm_try eng h dxf mp c step = (r, d)"
  shows "\<exists>angles. prefix d (baseline_calls dxf (num_val (static_ecc_mm c)) @
                          sweep_calls (num_val (dynamic_ecc_mm c)) angles @ [CloseFemm])
         \<and> (\<forall>e. r = Inl e \<longrightarrow> prefix d (baseline_calls dxf (num_val (static_ecc_mm c)) @
                          sweep_calls (num_val (dynamic_ecc_mm c)) angles))
         \<and> (\<forall>rows. r = Inr rows \<longrightarrow>
               np_arange0 (fdiv 360 (fl (of_int (poles mp) / 2))) step = Inr angles \<and>
               map fst rows = angles \<and>
               d = baseline_calls dxf (num_val (static_ecc_mm c)) @
                   sweep_calls (num_val (dynamic_ecc_mm c)) angles @ [CloseFemm])"
proof -
  let ?b = "baseline_calls dxf (num_val (static_ecc_mm c))"
  let ?dyn = "num_val (dynamic_ecc_mm c)"
  obtain ok0 d0 where s0: "femm_seq eng h ?b = (ok0, d0)" by (cases "femm_seq eng h ?b")
  note p0 = femm_seq_done [OF s0]
  show ?thesis
  proof (cases ok0)
    case False
    with assms s0 have "r = Inl FemmError" "d = d0" by (simp_all add: femm_try_def)
    with p0 show ?thesis by (intro exI [of _ "[]"]) (auto simp: sweep_calls_def prefix_def)
  next
    case True
    with p0 have d0: "d0 = ?b" by simp
    show ?thesis
    proof (cases "fl (of_int (poles mp) / 2) = 0")
      case z: True
      with assms s0 True have "r = Inl ZeroDivisionError" "d = d0" by (simp_all add: femm_try_def)
      with d0 show ?thesis by (intro exI [of _ "[]"]) (auto simp: sweep_calls_def)
    next
      case nz: False
      show ?thesis
      proof (cases "np_arange0 (fdiv 360 (fl (of_int (poles mp) / 2))) step")
        case (Inl e)
        with assms s0 True nz have "r = Inl e" "d = d0" by (simp_all add: femm_try_def)
        with d0 show ?thesis by (intro exI [of _ "[]"]) (auto simp: sweep_calls_def)
      next
        case (Inr angles)
        obtain r1 d1 where s1: "sweep eng (h @ d0) ?dyn angles = (r1, d1)"
          by (cases "sweep eng (h @ d0) ?dyn angles")
        note p1 = sweep_done [OF s1]
        show ?thesis
        proof (cases r1)
          case None
          with assms s0 True nz Inr s1 have "r = Inl FemmError" "d = d0 @ d1" by (simp_all add: femm_try_def)
          with d0 p1 show ?thesis by (intro exI [of _ angles]) (auto simp: prefix_def)
        next
          case (Some rows)
          with p1 have d1: "d1 = sweep_calls ?dyn angles" and rows: "map fst rows = angles" by simp_all
          show ?thesis
          proof (cases "eng (h @ d0 @ d1) CloseFemm")
            case None
            with assms s0 True nz Inr s1 Some have "r = Inl FemmError" "d = d0 @ d1" by (simp_all add: femm_try_def)
            with d0 d1 show ?thesis by (intro exI [of _ angles]) (auto simp: prefix_def)
          next
            case (Some v)
            with assms s0 True nz Inr s1 \<open>r1 = Some rows\<close> have "r = Inr rows" "d = d0 @ d1 @ [CloseFemm]"
              by (simp_all add: femm_try_def)
            with d0 d1 rows Inr show ?thesis by (intro exI [of _ angles]) auto
          qed
        qed
      qed
    qed
  qed
qed


lemma net_translation_append:
  "net_translation (xs @ ys) =
     (fst (net_translation xs) + fst (net_translation ys), snd (net_translation xs) + snd (net_translation ys))"
  by (induction xs rule: net_translation.induct) (simp_all add: case_prod_unfold)

lemma net_rotation_append: "net_rotation (xs @ ys) = net_rotation xs + net_rotation ys"
  by (induction xs rule: net_rotation.induct) simp_all

lemma net_step_calls: "net_rotation (step_calls dyn a) = 0" "net_translation (step_calls dyn a) = (0, 0)"
  by (simp_all add: step_calls_def rotate_calls_def undo_calls_def)

lemma net_sweep_calls: "net_rotation (sweep_calls dyn angles) = 0" "net_translation (sweep_calls dyn angles) = (0, 0)"
  by (induction angles) (simp_all add: sweep_calls_def net_rotation_append net_translation_append net_step_calls)

lemma net_baseline_calls:
  "net_rotation (baseline_calls dxf s) = 0" "net_translation (baseline_calls dxf s) = (s, 0)"
  by (simp_all add: baseline_calls_def)

lemma run_single_completed:
  assumes "run_single_femm_case eng h dxf mp c step = (rows, d, [])"
  shows "femm_try eng h dxf mp c step = (Inr rows, d)"
  using assms by (auto simp: run_single_femm_case_def split: prod.splits sum.splits)

text \<open>
  Claim C2, as amended. When the \<open>try\<close> block of a case has run to its end, the rotations
  issued during the case sum to zero and the translations sum to the static eccentricity
  of the case: every step of the sweep undoes its own rotation and dynamic translation,
  and the static translation applied before the sweep stays in place.
\<close>

theorem undo_restores_baseline:
  assumes "run_single_femm_case eng h dxf mp c step = (rows, d, [])"
  shows "net_rotation d = 0 \<and> net_translation d = (num_val (static_ecc_mm c), 0)"
proof -
  from femm_try_done [OF run_single_completed [OF assms]]
  obtain angles where "d = baseline_calls dxf (num_val (static_ecc_mm c)) @
                   sweep_calls (num_val (dynamic_ecc_mm c)) angles @ [CloseFemm]"
    by auto
  then show ?thesis
    by (simp add: net_rotation_append net_translation_append net_sweep_calls net_baseline_calls)
qed


theorem undo_restores_baseline_witness:
  "snd (snd (run_single_femm_case ideal_engine [] (''cad'', ''M.dxf'') \<lparr>poles = 2\<rparr>
       \<lparr>static_ecc_mm = PyFloat False 0 [5], dynamic_ecc_mm = PyInt 1, tilt_deg = PyInt 0\<rparr> 180)) = []
   \<and> net_rotation (fst (snd (run_single_femm_case ideal_engine [] (''cad'', ''M.dxf'') \<lparr>poles = 2\<rparr>
       \<lparr>static_ecc_mm = PyFloat False 0 [5], dynamic_ecc_mm = PyInt 1, tilt_deg = PyInt 0\<rparr> 180))) = 0
   \<and> net_translation (fst (snd (run_single_femm_case ideal_engine [] (''cad'', ''M.dxf'') \<lparr>poles = 2\<rparr>
       \<lparr>static_ecc_mm = PyFloat False 0 [5], dynamic_ecc_mm = PyInt 1, tilt_deg = PyInt 0\<rparr> 180))) = (1 / 2, 0)"
proof -
  let ?c = "\<lparr>static_ecc_mm = PyFloat False 0 [5], dynamic_ecc_mm = PyInt 1, tilt_deg = PyInt 0\<rparr>"
  let ?r = "run_single_femm_case ideal_engine [] (''cad'', ''M.dxf'') \<lparr>poles = 2\<rparr> ?c 180"
  have m: "snd (snd ?r) = []" by code_simp
  then have h: "?r = (fst ?r, fst (snd ?r), [])" by (metis prod.collapse)
  have v: "num_val (static_ecc_mm ?c) = 1 / 2" by code_simp
  from undo_restores_baseline [OF h] v m show ?thesis by simp
qed

text \<open>
  Claim C2 as stated fails: with a static eccentricity of 1 and a tool that never raises,
  the case completes with two samples and the translations issued sum to \<open>(1, 0)\<close>.
\<close>

theorem undo_invariant_counterexample:
  "snd (snd (run_single_femm_case ideal_engine [] (''cad'', ''M.dxf'') \<lparr>poles = 2\<rparr>
       \<lparr>static_ecc_mm = PyInt 1, dynamic_ecc_mm = PyInt 0, tilt_deg = PyInt 0\<rparr> 180)) = []
   \<and> length (fst (run_single_femm_case ideal_engine [] (''cad'', ''M.dxf'') \<lparr>poles = 2\<rparr>
       \<lparr>static_ecc_mm = PyInt 1, dynamic_ecc_mm = PyInt 0, tilt_deg = PyInt 0\<rparr> 180)) = 2
   \<and> net_translation (fst (snd (run_single_femm_case ideal_engine [] (''cad'', ''M.dxf'') \<lparr>poles = 2\<rparr>
       \<lparr>static_ecc_mm = PyInt 1, dynamic_ecc_mm = PyInt 0, tilt_deg = PyInt 0\<rparr> 180))) = (1, 0)
   \<and> net_translation (fst (snd (run_single_femm_case ideal_engine [] (''cad'', ''M.dxf'') \<lparr>poles = 2\<rparr>
       \<lparr>static_ecc_mm = PyInt 1, dynamic_ecc_mm = PyInt 0, tilt_deg = PyInt 0\<rparr> 180))) \<noteq> (0, 0)"
  by code_simp


lemma translate_deltas_append: "translate_deltas (xs @ ys) = translate_deltas xs @ translate_deltas ys"
  by (induction xs rule: translate_deltas.induct) simp_all

lemma translate_deltas_prefix: "prefix xs ys \<Longrightarrow> prefix (translate_deltas xs) (translate_deltas ys)"
  by (auto simp: prefix_def translate_deltas_append)

lemma translate_deltas_step:
  "translate_deltas (step_calls dyn a) = (if dyn \<noteq> 0 then [(dyn, 0), (- dyn, 0)] else [])"
  by (simp add: step_calls_def rotate_calls_def undo_calls_def)

lemma translate_deltas_sweep:
  "translate_deltas (sweep_calls dyn angles) =
     concat (replicate (length angles) (if dyn \<noteq> 0 then [(dyn, 0), (- dyn, 0)] else []))"
  by (induction angles) (simp_all add: sweep_calls_def translate_deltas_append translate_deltas_step)

lemma translate_deltas_baseline: "translate_deltas (baseline_calls dxf s) = [(s, 0)]"
  by (simp add: baseline_calls_def)

text \<open>
  Claim C10. The translations completed during a case begin with the static eccentricity
  and go on with pairs of the dynamic eccentricity and its negative only, one pair per
  angle and none when the dynamic eccentricity is zero; a case that fails has completed an
  initial part of that sequence, and a case that completes all of it. So the static
  translation comes first, once, and no step of the sweep applies it again.
\<close>

theorem static_offset_applied_once:
  assumes "run_single_femm_case eng h dxf mp c step = (rows, d, msgs)"
  shows "\<exists>n. prefix (translate_deltas d)
                ((num_val (static_ecc_mm c), 0) #
                 concat (replicate n (if num_val (dynamic_ecc_mm c) \<noteq> 0
                    then [(num_val (dynamic_ecc_mm c), 0), (- num_val (dynamic_ecc_mm c), 0)] else [])))
             \<and> (msgs = [] \<longrightarrow>
                  translate_deltas d =
                    (num_val (static_ecc_mm c), 0) #
                    concat (replicate (length rows) (if num_val (dynamic_ecc_mm c) \<noteq> 0
                      then [(num_val (dynamic_ecc_mm c), 0), (- num_val (dynamic_ecc_mm c), 0)] else [])))"
proof -
  let ?s = "num_val (static_ecc_mm c)" and ?dy = "num_val (dynamic_ecc_mm c)"
  obtain r d0 where t: "femm_try eng h dxf mp c step = (r, d0)" by (cases "femm_try eng h dxf mp c step")
  from femm_try_done [OF t] obtain angles where
    p: "prefix d0 (baseline_calls dxf ?s @ sweep_calls ?dy angles @ [CloseFemm])" and
    pe: "\<And>e. r = Inl e \<Longrightarrow> prefix d0 (baseline_calls dxf ?s @ sweep_calls ?dy angles)" and
    ok: "\<And>rs. r = Inr rs \<Longrightarrow> map fst rs = angles \<and> d0 = baseline_calls dxf ?s @ sweep_calls ?dy angles @ [CloseFemm]"
    by blast
  show ?thesis
  proof (cases r)
    case (Inl e)
    with assms t have d: "d = d0 @ [CloseFemm]" and m: "msgs \<noteq> []"
      by (auto simp: run_single_femm_case_def)
    from translate_deltas_prefix [OF pe [OF Inl]] d
    have "prefix (translate_deltas d) ((?s, 0) # concat (replicate (length angles)
             (if ?dy \<noteq> 0 then [(?dy, 0), (- ?dy, 0)] else [])))"
      by (simp add: translate_deltas_append translate_deltas_baseline translate_deltas_sweep)
    with m show ?thesis by blast
  next
    case (Inr rs)
    with assms t have d: "d = d0" and rs: "rows = rs" by (auto simp: run_single_femm_case_def)
    from ok [OF Inr] rs have len: "length rows = length angles" by (metis length_map)
    from ok [OF Inr] d have "translate_deltas d = (?s, 0) # concat (replicate (length angles)
             (if ?dy \<noteq> 0 then [(?dy, 0), (- ?dy, 0)] else []))"
      by (simp add: translate_deltas_append translate_deltas_baseline translate_deltas_sweep)
    with len show ?thesis by (intro exI [of _ "length angles"]) simp
  qed
qed

theorem static_offset_applied_once_witness:
  "snd (snd (run_single_femm_case ideal_engine [] (''cad'', ''A.dxf'') \<lparr>poles = 2\<rparr>
       \<lparr>static_ecc_mm = PyInt 3, dynamic_ecc_mm = PyInt 0, tilt_deg = PyInt 0\<rparr> 90)) = []
   \<and> translate_deltas (fst (snd (run_single_femm_case ideal_engine [] (''cad'', ''A.dxf'') \<lparr>poles = 2\<rparr>
       \<lparr>static_ecc_mm = PyInt 3, dynamic_ecc_mm = PyInt 0, tilt_deg = PyInt 0\<rparr> 90))) = [(3, 0)]"
proof -
  let ?c = "\<lparr>static_ecc_mm = PyInt 3, dynamic_ecc_mm = PyInt 0, tilt_deg = PyInt 0\<rparr>"
  let ?r = "run_single_femm_case ideal_engine [] (''cad'', ''A.dxf'') \<lparr>poles = 2\<rparr> ?c 90"
  have m: "snd (snd ?r) = []" by code_simp
  have h: "?r = (fst ?r, fst (snd ?r), snd (snd ?r))" by simp
  from static_offset_applied_once [OF h] m show ?thesis by simp
qed

lemma femm_seq_ideal: "femm_seq ideal_engine h cs = (True, cs)"
  by (induction cs arbitrary: h) (simp_all add: ideal_engine_def)

lemma sweep_step_ideal: "sweep_step ideal_engine h dyn a = (Some 1, step_calls dyn a)"
  by (simp add: sweep_step_def femm_seq_ideal step_calls_def ideal_engine_def)

lemma sweep_ideal: "sweep ideal_engine h dyn angles = (Some (map (\<lambda>a. (a, 1)) angles), sweep_calls dyn angles)"
  by (induction angles arbitrary: h) (simp_all add: sweep_step_ideal sweep_calls_def)

lemma rows_ideal:
  assumes "fl (of_int (poles mp) / 2) \<noteq> 0" "step \<noteq> 0"
  shows "length (fst (run_single_femm_case ideal_engine h dxf mp c step)) =
           nat \<lceil>fdiv (fdiv 360 (fl (of_int (poles mp) / 2))) step\<rceil>"
  using assms
  by (simp add: run_single_femm_case_def femm_try_def femm_seq_ideal sweep_ideal np_arange0_def
        Let_def ideal_engine_def)

text \<open>
  Claim C4 at an electrical step of one degree, with a tool that never raises: a motor
  with 14 poles gets 361 samples and a motor with 8 poles gets 360, where the claim says
  \<open>\<lceil>360 / 1\<rceil> = 360\<close> for both. The rounded span \<open>360 / 7\<close> divided by the rounded
  step \<open>1 / 7\<close> is a little more than 360.
\<close>

theorem sample_count_depends_on_poles:
  "length (fst (run_single_femm_case ideal_engine h dxf \<lparr>poles = 14\<rparr> c
      (step_mech_deg (cfg\<lparr>sweep_step_elec_deg := PyInt 1\<rparr>) \<lparr>poles = 14\<rparr>))) = 361
   \<and> length (fst (run_single_femm_case ideal_engine h dxf \<lparr>poles = 8\<rparr> c
      (step_mech_deg (cfg\<lparr>sweep_step_elec_deg := PyInt 1\<rparr>) \<lparr>poles = 8\<rparr>))) = 360
   \<and> \<lceil>360 / (1 :: rat)\<rceil> = 360"
proof -
  have s14: "step_mech_deg (cfg\<lparr>sweep_step_elec_deg := PyInt 1\<rparr>) \<lparr>poles = 14\<rparr> = fdiv (fl 1) (fl (14 / 2))"
    by (simp add: step_mech_deg_def)
  have s8: "step_mech_deg (cfg\<lparr>sweep_step_elec_deg := PyInt 1\<rparr>) \<lparr>poles = 8\<rparr> = fdiv (fl 1) (fl (8 / 2))"
    by (simp add: step_mech_deg_def)
  have a: "fl (14 / 2) \<noteq> 0" "fdiv (fl 1) (fl (14 / 2)) \<noteq> 0" by code_simp+
  have b: "fl (8 / 2) \<noteq> 0" "fdiv (fl 1) (fl (8 / 2)) \<noteq> 0" by code_simp+
  have n14: "nat \<lceil>fdiv (fdiv 360 (fl (14 / 2))) (fdiv (fl 1) (fl (14 / 2)))\<rceil> = 361" by code_simp
  have n8: "nat \<lceil>fdiv (fdiv 360 (fl (8 / 2))) (fdiv (fl 1) (fl (8 / 2)))\<rceil> = 360" by code_simp
  have "length (fst (run_single_femm_case ideal_engine h dxf \<lparr>poles = 14\<rparr> c
      (step_mech_deg (cfg\<lparr>sweep_step_elec_deg := PyInt 1\<rparr>) \<lparr>poles = 14\<rparr>))) = 361"
    using rows_ideal [of "\<lparr>poles = 14\<rparr>" "fdiv (fl 1) (fl (14 / 2))" h dxf c] a n14 by (simp add: s14)
  moreover have "length (fst (run_single_femm_case ideal_engine h dxf \<lparr>poles = 8\<rparr> c
      (step_mech_deg (cfg\<lparr>sweep_step_elec_deg := PyInt 1\<rparr>) \<lparr>poles = 8\<rparr>))) = 360"
    using rows_ideal [of "\<lparr>poles = 8\<rparr>" "fdiv (fl 1) (fl (8 / 2))" h dxf c] b n8 by (simp add: s8)
  ultimately show ?thesis by simp
qed

section \<open>Properties of the stage-1 batch\<close>

lemma for_each_append:
  "for_each body (xs @ ys) w =
     (case for_each body xs w of
        Inl e \<Rightarrow> Inl e
      | Inr (Return w') \<Rightarrow> Inr (Return w')
      | Inr (Next w') \<Rightarrow> for_each body ys w')"
  by (induction xs arbitrary: w) (auto split: sum.splits flow.splits)

lemma for_each_inv:
  assumes "for_each body xs w = Inr r" and "P w"
    and "\<And>x v r'. x \<in> set xs \<Longrightarrow> P v \<Longrightarrow> body x v = Inr r' \<Longrightarrow>
           (case r' of Next v' \<Rightarrow> P v' | Return v' \<Rightarrow> Q v')"
  shows "case r of Next w' \<Rightarrow> P w' | Return w' \<Rightarrow> Q w'"
  using assms
proof (induction xs arbitrary: w)
  case Nil
  then show ?case by auto
next
  case (Cons x xs)
  show ?case
  proof (cases "body x w")
    case (Inl e)
    with Cons.prems(1) show ?thesis by simp
  next
    case (Inr r')
    note step = Cons.prems(3) [OF _ Cons.prems(2) Inr]
    show ?thesis
    proof (cases r')
      case (Return v')
      with Inr Cons.prems(1) step show ?thesis by auto
    next
      case (Next v')
      with Inr Cons.prems(1) have "for_each body xs v' = Inr r" by simp
      moreover from step Next have "P v'" by simp
      ultimately show ?thesis using Cons.IH Cons.prems(3) by (metis list.set_intros(2))
    qed
  qed
qed

lemma femm_case_result:
  "femm_case cfg eng motor_id mp n (i, combo) w = Inr r \<Longrightarrow>
     \<exists>w'. r = Next w' \<and>
       (files w' = files w \<or>
        (\<exists>rows. files w' = (files w)(output_path cfg motor_id combo \<mapsto> TorqueTable rows)))"
  by (auto simp: femm_case_def Let_def emit_def write_file_def split: if_splits prod.splits)





lemma csv_not_dxf: "\<not> suffix ''.csv'' (motor_id @ ''.dxf'')"
  by (auto simp: suffix_def)

lemma femm_case_keeps:
  assumes "femm_case cfg eng motor_id mp n ic w = Inr r" "\<not> suffix ''.csv'' (snd p)"
  shows "\<exists>w'. r = Next w' \<and> files w' p = files w p"
proof -
  obtain i combo where ic: "ic = (i, combo)" by (cases ic)
  from femm_case_result [OF assms(1) [unfolded ic]] obtain w' where
    r: "r = Next w'" and
    f: "files w' = files w \<or> (\<exists>rows. files w' = (files w)(output_path cfg motor_id combo \<mapsto> TorqueTable rows))"
    by blast
  have "p \<noteq> output_path cfg motor_id combo"
    using assms(2) by (auto simp: output_path_def output_filename_def suffix_def)
  with f r show ?thesis by auto
qed

lemma femm_cases_keep:
  assumes "for_each (femm_case cfg eng motor_id mp n) ics w = Inr r" "\<not> suffix ''.csv'' (snd p)"
  shows "\<exists>w'. r = Next w' \<and> files w' p = files w p"
proof -
  have "case r of Next w' \<Rightarrow> files w' p = files w p | Return w' \<Rightarrow> False"
  proof (rule for_each_inv [OF assms(1), where P = "\<lambda>v. files v p = files w p" and Q = "\<lambda>v. False"])
    show "files w p = files w p" by simp
  next
    fix x v r'
    assume "files v p = files w p" "femm_case cfg eng motor_id mp n x v = Inr r'"
    with femm_case_keeps [OF _ assms(2)] show "case r' of Next v' \<Rightarrow> files v' p = files w p | Return v' \<Rightarrow> False"
      by fastforce
  qed
  then show ?thesis by (cases r) simp_all
qed

lemma femm_motor_keeps:
  assumes "femm_motor cfg eng m w = Inr r" "\<not> suffix ''.csv'' (snd p)"
  shows "\<exists>w'. r = Next w' \<and> files w' p = files w p"
proof -
  obtain motor_id mp where m: "m = (motor_id, mp)" by (cases m)
  show ?thesis
  proof (cases "files w (dxf_path cfg motor_id) = None")
    case True
    with assms(1) m show ?thesis by (auto simp: femm_motor_def Let_def emit_def)
  next
    case False
    with assms(1) m have "for_each (femm_case cfg eng motor_id mp (length (error_combinations cfg)))
                   (enumerate 0 (error_combinations cfg)) (emit (ProcessingMotor motor_id) w) = Inr r"
      by (simp add: femm_motor_def Let_def emit_def)
    from femm_cases_keep [OF this assms(2)] show ?thesis by (simp add: emit_def)
  qed
qed

lemma femm_motors_keep:
  assumes "for_each (femm_motor cfg eng) ms w = Inr r" "\<not> suffix ''.csv'' (snd p)"
  shows "\<exists>w'. r = Next w' \<and> files w' p = files w p"
proof -
  have "case r of Next w' \<Rightarrow> files w' p = files w p | Return w' \<Rightarrow> False"
  proof (rule for_each_inv [OF assms(1), where P = "\<lambda>v. files v p = files w p" and Q = "\<lambda>v. False"])
    show "files w p = files w p" by simp
  next
    fix x v r'
    assume "files v p = files w p" "femm_motor cfg eng x v = Inr r'"
    with femm_motor_keeps [OF _ assms(2)] show "case r' of Next v' \<Rightarrow> files v' p = files w p | Return v' \<Rightarrow> False"
      by fastforce
  qed
  then show ?thesis by (cases r) simp_all
qed

text \<open>
  Claim C8. A motor whose geometry file is absent when the batch starts is still without
  it when its turn comes; its iteration writes no file and makes no call to the tool, it
  prints the warning, and the batch continues with the motors after it.
\<close>

theorem missing_geometry_skips_motor:
  assumes "motors cfg = pre @ (motor_id, mp) # post"
    and "files w (dxf_path cfg motor_id) = None"
    and "for_each (femm_motor cfg eng) pre w = Inr (Next w1)"
  shows "files w1 (dxf_path cfg motor_id) = None
       \<and> (\<exists>w2. femm_motor cfg eng (motor_id, mp) w1 = Inr (Next w2)
              \<and> files w2 = files w1
              \<and> femm_hist w2 = femm_hist w1
              \<and> console w2 = console w1 @ [ProcessingMotor motor_id, DxfNotFound (dxf_path cfg motor_id)]
              \<and> run_femm_simulations cfg eng w = for_each (femm_motor cfg eng) post w2)"
proof -
  have "\<not> suffix ''.csv'' (snd (dxf_path cfg motor_id))" by (simp add: dxf_path_def csv_not_dxf)
  from femm_motors_keep [OF assms(3) this] assms(2)
  have absent: "files w1 (dxf_path cfg motor_id) = None" by simp
  let ?w2 = "w1\<lparr>console := console w1 @ [ProcessingMotor motor_id, DxfNotFound (dxf_path cfg motor_id)]\<rparr>"
  have step: "femm_motor cfg eng (motor_id, mp) w1 = Inr (Next ?w2)"
    using absent by (simp add: femm_motor_def Let_def emit_def)
  have "run_femm_simulations cfg eng w = for_each (femm_motor cfg eng) post ?w2"
    by (simp add: run_femm_simulations_def assms(1) for_each_append assms(3) step)
  with absent step show ?thesis by (intro conjI exI [of _ ?w2]) simp_all
qed

theorem missing_geometry_skips_motor_witness:
  "motors example_config = [(''A'', \<lparr>poles = 2\<rparr>)] @ (''B'', \<lparr>poles = 2\<rparr>) # []
   \<and> files example_world (dxf_path example_config ''B'') = None
   \<and> (\<exists>w1 w2. for_each (femm_motor example_config ideal_engine) [(''A'', \<lparr>poles = 2\<rparr>)] example_world = Inr (Next w1)
         \<and> files w1 (results example_config, ''A_static_0p0_dyn_0p0_tilt_0p0.csv'') \<noteq> None
         \<and> femm_motor example_config ideal_engine (''B'', \<lparr>poles = 2\<rparr>) w1 = Inr (Next w2)
         \<and> files w2 = files w1
         \<and> run_femm_simulations example_config ideal_engine example_world = Inr (Next w2))"
proof -
  let ?X = "for_each (femm_motor example_config ideal_engine) [(''A'', \<lparr>poles = 2\<rparr>)] example_world"
  have m: "motors example_config = [(''A'', \<lparr>poles = 2\<rparr>)] @ (''B'', \<lparr>poles = 2\<rparr>) # []"
    by (simp add: example_config_def)
  have a: "files example_world (dxf_path example_config ''B'') = None" by code_simp
  have "case ?X of Inr (Next w1) \<Rightarrow>
           files w1 (results example_config, ''A_static_0p0_dyn_0p0_tilt_0p0.csv'') \<noteq> None | _ \<Rightarrow> False"
    by code_simp
  then obtain w1 where x: "?X = Inr (Next w1)"
    and k: "files w1 (results example_config, ''A_static_0p0_dyn_0p0_tilt_0p0.csv'') \<noteq> None"
    by (auto split: sum.splits flow.splits)
  from missing_geometry_skips_motor [OF m a x] m a x k show ?thesis by auto
qed

section \<open>Properties of the stage-2 batch\<close>

lemma console_package [simp]:
  "console (if files v package_path = None then write_file package_path TextFile v else v) = console v"
  by (simp add: write_file_def)









subsection \<open>Nothing follows a missing executable\<close>











section \<open>The stage-2 dependency on stage 1\<close>

subsection \<open>What stage 2 attempts\<close>






subsection \<open>Stage 2 leaves the stage-1 results alone\<close>










section \<open>Properties of the result keys\<close>

subsection \<open>Digits\<close>







subsection \<open>The characters of a printed number\<close>






subsection \<open>Splitting at a separator\<close>


subsection \<open>Printing is injective\<close>







subsection \<open>The substitution of the decimal point\<close>



lemma replace_append: "str_replace a b (xs @ ys) = str_replace a b xs @ str_replace a b ys"
  by (simp add: str_replace_def)




lemma replaced_case_name:
  "str_replace CHR ''.'' CHR ''p'' (femm_case_name (s, d, t)) =
     ''static_'' @ str_replace CHR ''.'' CHR ''p'' (py_str s) @ ''_dyn_'' @
     str_replace CHR ''.'' CHR ''p'' (py_str d) @ ''_tilt_'' @ str_replace CHR ''.'' CHR ''p'' (py_str t)"
  by (simp add: replace_append) (simp add: str_replace_def)


subsection \<open>Reading a key back\<close>




lemma output_filename_eq:
  "output_filename m (s, d, t) =
     m @ ''_static_'' @ str_replace CHR ''.'' CHR ''p'' (py_str s) @ ''_dyn_'' @
     str_replace CHR ''.'' CHR ''p'' (py_str d) @ ''_tilt_'' @
     str_replace CHR ''.'' CHR ''p'' (py_str t) @ ''.csv''"
  by (simp add: output_filename_def replaced_case_name del: femm_case_name.simps)







lemma nominal_key_float_zeros:
  "output_filename motor_id (PyFloat False 0 [], PyFloat False 0 [], PyFloat False 0 [])
     = nominal_case_name motor_id"
  by (simp add: output_filename_eq nominal_case_name_def str_replace_def str_nat.simps [of 0]
        digit_char_def)

text \<open>
  Claim C1 at a configuration whose zero entries are the integers \<open>0\<close>: stage 1 stores
  the all-zero case of motor \<open>A\<close> under \<open>A_static_0_dyn_0_tilt_0.csv\<close>, stage 2 looks for
  \<open>A_static_0p0_dyn_0p0_tilt_0p0.csv\<close>, does not find it, prints the warning and attempts
  no case. For zero entries written \<open>0.0\<close> the two names agree
  (\<open>nominal_key_float_zeros\<close>).
\<close>

theorem nominal_lookup_misses_integer_zeros:
  "num_val (PyInt 0) = 0
   \<and> output_filename ''A'' (PyInt 0, PyInt 0, PyInt 0) = ''A_static_0_dyn_0_tilt_0.csv''
   \<and> nominal_case_name ''A'' = ''A_static_0p0_dyn_0p0_tilt_0p0.csv''
   \<and> files (after_stage1 integer_config) (results integer_config, ''A_static_0_dyn_0_tilt_0.csv'')
       = Some (TorqueTable [(0, 1), (90, 1), (180, 1), (270, 1)])
   \<and> files (after_stage1 integer_config) (nominal_path integer_config ''A'') = None
   \<and> (case run_modelica_simulations integer_config good_solver (after_stage1 integer_config) of
         Inr r \<Rightarrow> attempted (console (world_of r)) = []
                  \<and> NominalNotFound (nominal_path integer_config ''A'') \<in> set (console (world_of r))
       | Inl e \<Rightarrow> False)"
  by code_simp

end
